theory Spec2Isabelle
  imports Main
begin

section \<open>The activity-log task list: update-queue sequencer\<close>

text \<open>
  A shallow embedding of the \<open>ActivityLogTasklist\<close> component and of the status
  helpers defined beside it.

  \<^item> JavaScript objects have identity, and lodash \<open>union\<close> compares objects by
    reference. An item is therefore a reference into a store of item objects; the
    candidate lists of the props and the queue hold references.
  \<^item> \<open>updateStatus\<close> is either \<open>false\<close> or an object \<open>{status: s}\<close>; it is
    modelled as a \<open>string option\<close>, \<open>None\<close> for \<open>false\<close>.
  \<^item> The component state (\<open>dismissed\<close>, \<open>queued\<close>), the store and the list of
    effects sent to the outside (tracking events, update requests, notices,
    navigation) are threaded through every operation.
  \<^item> \<open>this.setState(partial, callback)\<close> does not change \<open>this.state\<close> at once.
    Inside an event handler or a lifecycle method React collects the calls; when the
    method has returned it merges the partial states in the order of the calls and
    then runs the callbacks in that order. A method called on its own is therefore
    one transition (merge, then callback), but the calls that \<open>componentDidUpdate\<close>
    makes in its loop all read the state as it was before the loop.
\<close>

subsection \<open>lodash helpers\<close>

text \<open>
  \<open>union(a, b, ...)\<close> flattens its arguments and keeps the first occurrence of every
  value, in order. \<open>baseUniq\<close> is the loop over the flattened array; \<open>result\<close> is
  the array built so far.
\<close>

fun baseUniq :: "'a list \<Rightarrow> 'a list \<Rightarrow> 'a list" where
  "baseUniq result [] = result"
| "baseUniq result (x # xs) =
     (if x \<in> set result then baseUniq result xs else baseUniq (result @ [x]) xs)"

definition union :: "'a list list \<Rightarrow> 'a list" where
  "union arrays = baseUniq [] (concat arrays)"

subsection \<open>Status normalisation\<close>

type_synonym updateStatus = "string option"

text \<open>
  The value found at the path \<open>data.themes.0.update\<close> of a stored response:
  the path may be missing (\<open>get\<close> gives \<open>undefined\<close>), hold \<open>null\<close>, or hold a value.
\<close>

datatype update_prop = Missing | Null | Present

record httpData =
  state :: string
  themes0_update :: update_prop

fun getNormalizedStatus :: "string \<Rightarrow> bool \<Rightarrow> updateStatus" where
  "getNormalizedStatus st isUpdateComplete =
     (if ''pending'' = st then Some ''inProgress''
      else if ''failure'' = st then Some ''error''
      else if ''success'' = st then
        (if isUpdateComplete then Some ''completed'' else Some ''error'')
      else None)"

text \<open>Decimal rendering of a site id inside a template literal.\<close>

fun string_of_nat :: "nat \<Rightarrow> string" where
  "string_of_nat n =
     (if n < 10 then [char_of (48 + n)]
      else string_of_nat (n div 10) @ [char_of (48 + n mod 10)])"

declare string_of_nat.simps [simp del]

text \<open>\<open>getHttpData\<close> belongs to the data layer; it is a parameter here.\<close>

definition getStatusForTheme :: "(string \<Rightarrow> httpData) \<Rightarrow> nat \<Rightarrow> string \<Rightarrow> updateStatus" where
  "getStatusForTheme getHttpData siteId themeId =
     (let httpData = getHttpData (''theme-update-'' @ string_of_nat siteId @ ''-'' @ themeId);
          isThemeUpdateComplete = (themes0_update httpData = Null)
      in getNormalizedStatus (state httpData) isThemeUpdateComplete)"

definition getStatusForCore :: "(string \<Rightarrow> httpData) \<Rightarrow> nat \<Rightarrow> updateStatus" where
  "getStatusForCore getHttpData siteId =
     (let httpData = getHttpData (''core-update-'' @ string_of_nat siteId);
          isCoreUpdateComplete = False
      in getNormalizedStatus (state httpData) isCoreUpdateComplete)"

subsection \<open>Items, props, component state\<close>

type_synonym ref = nat

record item =
  slug :: string
  type :: string
  name :: string
  version :: string
  updateStatus :: updateStatus
  "from" :: string

record props =
  siteId :: nat
  siteSlug :: string
  siteName :: string
  coreWithUpdate :: "ref list"
  pluginWithUpdate :: "ref list"
  themeWithUpdate :: "ref list"

text \<open>
  A translated text is kept as the original string with its arguments;
  \<open>translate\<close> belongs to the i18n library.
\<close>

datatype translated = Translate string "(string \<times> string) list"

text \<open>The \<open>onClick\<close> closure of the error notice: \<open>() => this.enqueue(item, from)\<close>.\<close>

datatype callback = EnqueueCallback ref string

text \<open>
  What the component sends to the outside, in the order sent. The connected props
  (\<open>mapDispatchToProps\<close>) turn the component's calls into these.
\<close>

datatype effect =
    RecordTracksEvent string "string option"
  | UpdatePlugin nat ref
  | RequestHttpData string string string
  | InfoNotice translated string bool
  | ErrorNotice translated string translated callback
  | SuccessNotice translated string nat
  | Confirm translated
  | Next
  | SetTimeout_PageReplace string nat

record world =
  heap :: "ref \<Rightarrow> item"
  dismissed :: "string list"
  queued :: "ref list"
  effects :: "effect list"

definition emit :: "effect \<Rightarrow> world \<Rightarrow> world" where
  "emit e w = w\<lparr>effects := effects w @ [e]\<rparr>"

text \<open>The argument of \<open>dismiss\<close>: an item, or the click event of "Dismiss all",
  an object whose \<open>slug\<close> is not a string.\<close>

datatype dismiss_arg = ItemArg ref | EventArg

subsection \<open>Connected props\<close>

definition trackUpdate :: "ref \<Rightarrow> world \<Rightarrow> world" where
  "trackUpdate r w =
     (let i = heap w r
      in emit (RecordTracksEvent
                (''calypso_activitylog_tasklist_update_'' @ type i @ from i)
                (Some (slug i))) w)"

definition trackUpdateAll :: "world \<Rightarrow> world" where
  "trackUpdateAll w = emit (RecordTracksEvent ''calypso_activitylog_tasklist_update_all'' None) w"

definition trackDismissAll :: "world \<Rightarrow> world" where
  "trackDismissAll w = emit (RecordTracksEvent ''calypso_activitylog_tasklist_dismiss_all'' None) w"

definition trackDismiss :: "ref \<Rightarrow> world \<Rightarrow> world" where
  "trackDismiss r w =
     (let i = heap w r
      in emit (RecordTracksEvent
                (''calypso_activitylog_tasklist_dismiss_'' @ type i)
                (Some (slug i))) w)"

definition updateTheme :: "nat \<Rightarrow> string \<Rightarrow> world \<Rightarrow> world" where
  "updateTheme sid themeId w =
     emit (RequestHttpData (''theme-update-'' @ string_of_nat sid @ ''-'' @ themeId)
             ''POST'' (''/sites/'' @ string_of_nat sid @ ''/themes'')) w"

definition updateCore :: "nat \<Rightarrow> world \<Rightarrow> world" where
  "updateCore sid w =
     emit (RequestHttpData (''core-update-'' @ string_of_nat sid)
             ''POST'' (''/sites/'' @ string_of_nat sid @ ''/core/update'')) w"

definition updateSingle :: "props \<Rightarrow> ref \<Rightarrow> world \<Rightarrow> world" where
  "updateSingle p r w =
     (let i = heap w r
      in if ''core'' = type i then updateCore (siteId p) w
         else if ''plugin'' = type i then emit (UpdatePlugin (siteId p) r) w
         else updateTheme (siteId p) (slug i) w)"

subsection \<open>The component\<close>

definition isItemUpdating :: "(ref \<Rightarrow> item) \<Rightarrow> ref list \<Rightarrow> bool" where
  "isItemUpdating h s = list_ex (\<lambda>p. Some ''inProgress'' = updateStatus (h p)) s"

definition isItemEnqueued :: "(ref \<Rightarrow> item) \<Rightarrow> string \<Rightarrow> ref list \<Rightarrow> bool" where
  "isItemEnqueued h g q = (find (\<lambda>r. slug (h r) = g) q \<noteq> None)"

definition dismiss :: "props \<Rightarrow> dismiss_arg \<Rightarrow> world \<Rightarrow> world" where
  "dismiss p a w =
     (case a of
        ItemArg r \<Rightarrow>
          (let items = [slug (heap w r)];
               w1 = trackDismiss r w
           in w1\<lparr>dismissed := union [dismissed w1, items]\<rparr>)
      | EventArg \<Rightarrow>
          (let items = union [map (\<lambda>r. slug (heap w r)) (coreWithUpdate p),
                              map (\<lambda>r. slug (heap w r)) (pluginWithUpdate p),
                              map (\<lambda>r. slug (heap w r)) (themeWithUpdate p)];
               w1 = trackDismissAll w
           in w1\<lparr>dismissed := union [dismissed w1, items]\<rparr>))"

definition noticeId :: "string \<Rightarrow> string" where
  "noticeId s = ''alitemupdate-'' @ s"

definition updateItem :: "props \<Rightarrow> ref \<Rightarrow> world \<Rightarrow> world" where
  "updateItem p r w =
     (let w1 = trackUpdate r w;
          w2 = updateSingle p r w1;
          i = heap w2 r
      in emit (InfoNotice
                (Translate ''Updating %(item)s on %(siteName)s.''
                   [(''item'', name i), (''siteName'', siteName p)])
                (noticeId (slug i)) False) w2)"

definition continueQueue :: "props \<Rightarrow> world \<Rightarrow> world" where
  "continueQueue p w =
     (let allUpdatableItems = union [coreWithUpdate p, pluginWithUpdate p, themeWithUpdate p]
      in if 0 < length (queued w) \<and> \<not> isItemUpdating (heap w) allUpdatableItems
         then updateItem p (queued w ! 0) w
         else w)"

definition enqueue :: "props \<Rightarrow> ref \<Rightarrow> string \<Rightarrow> world \<Rightarrow> world" where
  "enqueue p r f w =
     (let w1 = w\<lparr>heap := (heap w)(r := (heap w r)\<lparr>from := f\<rparr>)\<rparr>
      in continueQueue p (w1\<lparr>queued := union [queued w1, [r]]\<rparr>))"

definition dequeue :: "props \<Rightarrow> world \<Rightarrow> world" where
  "dequeue p w = continueQueue p (w\<lparr>queued := drop 1 (queued w)\<rparr>)"

definition updateAll :: "props \<Rightarrow> world \<Rightarrow> world" where
  "updateAll p w =
     (let w1 = trackUpdateAll w
      in continueQueue p
           (w1\<lparr>queued := union [queued w1, coreWithUpdate p, pluginWithUpdate p,
                                    themeWithUpdate p]\<rparr>))"

text \<open>
  The handler that \<open>componentDidMount\<close> registers with \<open>page.exit\<close>.
  \<open>answer\<close> is what \<open>window.confirm\<close> returns if it is called.
\<close>

definition exitHandler :: "props \<Rightarrow> bool \<Rightarrow> world \<Rightarrow> world" where
  "exitHandler p answer w =
     (if length (queued w) = 0 then emit Next w
      else
        (let w1 = emit (Confirm (Translate ''Navigating away will cancel remaining updates'' [])) w
         in if answer then emit Next w1
            else emit (SetTimeout_PageReplace (''/stats/activity/'' @ siteSlug p) 0) w1))"

subsection \<open>Calls of \<open>setState\<close> collected in one batch\<close>

text \<open>
  One call \<open>this.setState(partial, callback)\<close>: the keys that the partial state
  sets, and the callback, which in this component is \<open>this.continueQueue\<close> or absent.
\<close>

datatype setState_callback = NoCallback | ContinueQueue

record setState_call =
  new_dismissed :: "string list option"
  new_queued :: "ref list option"
  then_call :: setState_callback

text \<open>
  While a method runs, \<open>this.state\<close> stays what it was; the calls of \<open>setState\<close>
  are collected beside it.
\<close>

type_synonym batch = "world \<times> setState_call list"

definition setState :: "setState_call \<Rightarrow> batch \<Rightarrow> batch" where
  "setState u b = (fst b, snd b @ [u])"

definition merge :: "setState_call \<Rightarrow> world \<Rightarrow> world" where
  "merge u w =
     (let w1 = (case new_dismissed u of None \<Rightarrow> w | Some d \<Rightarrow> w\<lparr>dismissed := d\<rparr>)
      in case new_queued u of None \<Rightarrow> w1 | Some q \<Rightarrow> w1\<lparr>queued := q\<rparr>)"

definition afterCall :: "props \<Rightarrow> setState_call \<Rightarrow> world \<Rightarrow> world" where
  "afterCall p u w =
     (case then_call u of NoCallback \<Rightarrow> w | ContinueQueue \<Rightarrow> continueQueue p w)"

text \<open>
  The value of one key after the partial states have been merged in order: the last
  value set, or the old value when no call sets the key.
\<close>

definition finalValue :: "'a \<Rightarrow> 'a option list \<Rightarrow> 'a" where
  "finalValue x os = foldl (\<lambda>y o'. case o' of None \<Rightarrow> y | Some z \<Rightarrow> z) x os"

text \<open>
  What React does when the method has returned: all partial states are merged, in
  order, and then all callbacks run, in order, on the merged state.
\<close>

definition flush :: "props \<Rightarrow> batch \<Rightarrow> world" where
  "flush p b =
     foldl (\<lambda>w u. afterCall p u w) (foldl (\<lambda>w u. merge u w) (fst b) (snd b)) (snd b)"

text \<open>
  The bodies of \<open>dismiss\<close>, \<open>dequeue\<close> and \<open>enqueue\<close> as they run inside a batch:
  what they send and write at once, and the \<open>setState\<close> call they add. The
  definitions \<open>dismiss\<close>, \<open>dequeue\<close> and \<open>enqueue\<close> above are these bodies run in
  a batch of their own (lemmas \<open>dismiss_alone\<close>, \<open>dequeue_alone\<close>,
  \<open>enqueue_alone\<close>).
\<close>

definition dismiss_call :: "props \<Rightarrow> dismiss_arg \<Rightarrow> batch \<Rightarrow> batch" where
  "dismiss_call p a b =
     (let w = fst b
      in case a of
           ItemArg r \<Rightarrow>
             (let items = [slug (heap w r)];
                  w1 = trackDismiss r w
              in setState \<lparr>new_dismissed = Some (union [dismissed w1, items]),
                            new_queued = None, then_call = NoCallback\<rparr> (w1, snd b))
         | EventArg \<Rightarrow>
             (let items = union [map (\<lambda>r. slug (heap w r)) (coreWithUpdate p),
                                 map (\<lambda>r. slug (heap w r)) (pluginWithUpdate p),
                                 map (\<lambda>r. slug (heap w r)) (themeWithUpdate p)];
                  w1 = trackDismissAll w
              in setState \<lparr>new_dismissed = Some (union [dismissed w1, items]),
                            new_queued = None, then_call = NoCallback\<rparr> (w1, snd b)))"

definition dequeue_call :: "batch \<Rightarrow> batch" where
  "dequeue_call b =
     setState \<lparr>new_dismissed = None, new_queued = Some (drop 1 (queued (fst b))),
                then_call = ContinueQueue\<rparr> b"

definition enqueue_call :: "ref \<Rightarrow> string \<Rightarrow> batch \<Rightarrow> batch" where
  "enqueue_call r f b =
     (let w = fst b;
          w1 = w\<lparr>heap := (heap w)(r := (heap w r)\<lparr>from := f\<rparr>)\<rparr>
      in setState \<lparr>new_dismissed = None, new_queued = Some (union [queued w1, [r]]),
                    then_call = ContinueQueue\<rparr> (w1, snd b))"

text \<open>\<open>prevProps[`${type}WithUpdate`]\<close>: \<open>None\<close> when the props have no such key.\<close>

definition propWithUpdate :: "props \<Rightarrow> string \<Rightarrow> ref list option" where
  "propWithUpdate p t =
     (if t = ''core'' then Some (coreWithUpdate p)
      else if t = ''plugin'' then Some (pluginWithUpdate p)
      else if t = ''theme'' then Some (themeWithUpdate p)
      else None)"

text \<open>\<open>get(find(prevProps[...], {slug}), ['updateStatus'], false)\<close>.\<close>

definition prevUpdateStatus :: "props \<Rightarrow> (ref \<Rightarrow> item) \<Rightarrow> item \<Rightarrow> updateStatus" where
  "prevUpdateStatus prevProps h i =
     (case propWithUpdate prevProps (type i) of
        None \<Rightarrow> None
      | Some l \<Rightarrow>
          (case find (\<lambda>q. slug (h q) = slug i) l of
             None \<Rightarrow> None
           | Some q \<Rightarrow> updateStatus (h q)))"

text \<open>
  The body of the \<open>each\<close> loop of \<open>componentDidUpdate\<close>, for one item. The notices
  are sent at once; \<open>this.dismiss\<close> and \<open>this.dequeue\<close> run inside the batch of the
  lifecycle method.
\<close>

definition reconcileItem :: "props \<Rightarrow> props \<Rightarrow> ref \<Rightarrow> batch \<Rightarrow> batch" where
  "reconcileItem p prevProps r b =
     (let w = fst b;
          i = heap w r;
          prevStatus = prevUpdateStatus prevProps (heap w) i
      in if prevStatus = None then b
         else if prevStatus = updateStatus i \<or> isItemUpdating (heap w) [r] then b
         else
           (let noticeArgs = [(''item'', name i), (''siteName'', siteName p)]
            in if updateStatus i = Some ''error'' then
                 dequeue_call
                   (emit (ErrorNotice
                            (Translate ''An error occurred while updating %(item)s on %(siteName)s.''
                               noticeArgs)
                            (noticeId (slug i)) (Translate ''Try again'' [])
                            (EnqueueCallback r ''_from_error'')) w, snd b)
               else if updateStatus i = Some ''completed'' then
                 dequeue_call
                   (dismiss_call p (ItemArg r)
                      (emit (SuccessNotice
                               (Translate ''Successfully updated %(item)s on %(siteName)s.''
                                  noticeArgs)
                               (noticeId (slug i)) 3000) w, snd b))
               else b))"

text \<open>
  One call of \<open>componentDidUpdate\<close>: the loop over the candidates collects the calls
  of \<open>setState\<close>, and React applies them when the method has returned. The re-render
  that follows calls \<open>componentDidUpdate\<close> again with unchanged props; that call is
  not part of this one.
\<close>

definition componentDidUpdate :: "props \<Rightarrow> props \<Rightarrow> world \<Rightarrow> world" where
  "componentDidUpdate p prevProps w =
     (let itemsWithUpdate = union [coreWithUpdate p, pluginWithUpdate p, themeWithUpdate p]
      in if itemsWithUpdate = [] then w
         else flush p (foldl (\<lambda>b r. reconcileItem p prevProps r b) (w, []) itemsWithUpdate))"

text \<open>Clicking the button of a notice runs its closure, with the props of that moment.\<close>

fun runCallback :: "props \<Rightarrow> callback \<Rightarrow> world \<Rightarrow> world" where
  "runCallback p (EnqueueCallback r f) w = enqueue p r f w"

text \<open>The list that \<open>render\<close> shows; \<open>render\<close> returns \<open>null\<close> when it is empty.
  Of the markup, the model keeps what depends on the state: the count, whether
  "Update all" is shown and disabled, and one row for each item.\<close>

definition itemsToUpdate :: "props \<Rightarrow> world \<Rightarrow> ref list" where
  "itemsToUpdate p w =
     filter (\<lambda>r. slug (heap w r) \<notin> set (dismissed w))
       (union [coreWithUpdate p, pluginWithUpdate p, themeWithUpdate p])"

record row =
  row_item :: ref
  row_updateType :: translated
  row_linked :: bool
  row_disable :: bool

record rendered =
  numberOfUpdates :: nat
  updateAllShown :: bool
  updateAllDisabled :: bool
  rows :: "row list"

definition render :: "props \<Rightarrow> world \<Rightarrow> rendered option" where
  "render p w =
     (let its = itemsToUpdate p w
      in if its = [] then None
         else Some \<lparr>
           numberOfUpdates = length its,
           updateAllShown = (1 < length its),
           updateAllDisabled = (0 < length (queued w)),
           rows = map (\<lambda>r.
                    \<lparr>row_item = r,
                     row_updateType =
                       (if ''theme'' = type (heap w r) then Translate ''Theme update available'' []
                        else if ''core'' = type (heap w r) then Translate ''Core update available'' []
                        else Translate ''Plugin update available'' []),
                     row_linked = (''core'' \<noteq> type (heap w r)),
                     row_disable = isItemEnqueued (heap w) (slug (heap w r)) (queued w)\<rparr>) its\<rparr>)"

text \<open>
  Sequences of \<open>enqueue\<close> and \<open>dequeue\<close> calls. The calls come in batches: the
  calls of one batch are made by one event handler or one lifecycle method, under
  the props of that moment, and React applies them together when it has returned.
\<close>

datatype call = Enqueue ref string | Dequeue

fun doCall :: "call \<Rightarrow> batch \<Rightarrow> batch" where
  "doCall (Enqueue r f) b = enqueue_call r f b"
| "doCall Dequeue b = dequeue_call b"

definition runBatch :: "props \<Rightarrow> call list \<Rightarrow> world \<Rightarrow> world" where
  "runBatch p cs w = flush p (foldl (\<lambda>b c. doCall c b) (w, []) cs)"

fun run :: "(props \<times> call list) list \<Rightarrow> world \<Rightarrow> world" where
  "run [] w = w"
| "run ((p, cs) # bs) w = run bs (runBatch p cs w)"

text \<open>The state of a component that has just been mounted.\<close>

definition initial :: "(ref \<Rightarrow> item) \<Rightarrow> world" where
  "initial h = \<lparr>heap = h, dismissed = [], queued = [], effects = []\<rparr>"

subsection \<open>Vocabulary for the properties\<close>

text \<open>
  The items passed to \<open>enqueue\<close> in a sequence of calls, in order, and the number of
  \<open>dequeue\<close> calls in it.
\<close>

fun enqueued :: "call list \<Rightarrow> ref list" where
  "enqueued [] = []"
| "enqueued (Enqueue r f # cs) = r # enqueued cs"
| "enqueued (Dequeue # cs) = enqueued cs"

fun dequeued :: "call list \<Rightarrow> nat" where
  "dequeued [] = 0"
| "dequeued (Enqueue r f # cs) = dequeued cs"
| "dequeued (Dequeue # cs) = Suc (dequeued cs)"

definition enqueues :: "(props \<times> call list) list \<Rightarrow> ref list" where
  "enqueues bs = enqueued (concat (map snd bs))"

definition dequeues :: "(props \<times> call list) list \<Rightarrow> nat" where
  "dequeues bs = dequeued (concat (map snd bs))"

text \<open>
  A batch that consists of one call: an \<open>enqueue\<close> of an object that is not in the
  queue, or a \<open>dequeue\<close> that finds the queue non-empty.
\<close>

fun alone :: "call list \<Rightarrow> world \<Rightarrow> bool" where
  "alone [Enqueue r f] w = (r \<notin> set (queued w))"
| "alone [Dequeue] w = (queued w \<noteq> [])"
| "alone cs w = False"

text \<open>A sequence in which every batch is such a batch, in the state it meets.\<close>

fun admissible :: "(props \<times> call list) list \<Rightarrow> world \<Rightarrow> bool" where
  "admissible [] w = True"
| "admissible ((p, cs) # bs) w = (alone cs w \<and> admissible bs (runBatch p cs w))"

text \<open>
  An item fires in a reconciliation when its status at the previous observation was
  not \<open>false\<close>, its status has changed since, and the new status is \<open>error\<close> or
  \<open>completed\<close>.
\<close>

definition fires :: "props \<Rightarrow> (ref \<Rightarrow> item) \<Rightarrow> ref \<Rightarrow> bool" where
  "fires prevProps h r =
     (prevUpdateStatus prevProps h (h r) \<noteq> None
      \<and> prevUpdateStatus prevProps h (h r) \<noteq> updateStatus (h r)
      \<and> (updateStatus (h r) = Some ''error'' \<or> updateStatus (h r) = Some ''completed''))"

text \<open>
  What the loop of a reconciliation sends for one item, and the calls of
  \<open>setState\<close> it makes for it, in the words of the specification: nothing for an
  item that does not fire; for one that fires with \<open>error\<close>, the error notice with
  its "Try again" closure and the call of \<open>dequeue\<close>; for one that fires with
  \<open>completed\<close>, the success notice and the calls of \<open>dismiss(item)\<close>, with its
  tracking event, and of \<open>dequeue\<close>. \<open>w\<close> is the state before the loop.
\<close>

definition itemEffects :: "props \<Rightarrow> props \<Rightarrow> world \<Rightarrow> ref \<Rightarrow> effect list" where
  "itemEffects p prevProps w r =
     (let i = heap w r;
          noticeArgs = [(''item'', name i), (''siteName'', siteName p)]
      in if \<not> fires prevProps (heap w) r then []
         else if updateStatus i = Some ''error'' then
           [ErrorNotice
              (Translate ''An error occurred while updating %(item)s on %(siteName)s.'' noticeArgs)
              (''alitemupdate-'' @ slug i) (Translate ''Try again'' [])
              (EnqueueCallback r ''_from_error'')]
         else
           [SuccessNotice
              (Translate ''Successfully updated %(item)s on %(siteName)s.'' noticeArgs)
              (''alitemupdate-'' @ slug i) 3000,
            RecordTracksEvent (''calypso_activitylog_tasklist_dismiss_'' @ type i)
              (Some (slug i))])"

definition itemCalls :: "props \<Rightarrow> world \<Rightarrow> ref \<Rightarrow> setState_call list" where
  "itemCalls prevProps w r =
     (if \<not> fires prevProps (heap w) r then []
      else if updateStatus (heap w r) = Some ''error'' then
        [\<lparr>new_dismissed = None, new_queued = Some (drop 1 (queued w)),
          then_call = ContinueQueue\<rparr>]
      else
        [\<lparr>new_dismissed = Some (union [dismissed w, [slug (heap w r)]]), new_queued = None,
          then_call = NoCallback\<rparr>,
         \<lparr>new_dismissed = None, new_queued = Some (drop 1 (queued w)),
          then_call = ContinueQueue\<rparr>])"


subsection \<open>A small site, for concrete runs\<close>

text \<open>
  Objects 1 to 3 are the current candidates (core, a plugin that has completed, a
  theme that has failed); object 4 is a second object with the plugin's slug;
  objects 5 and 6 are the plugin and the theme as observed one refresh earlier,
  both in progress; object 7 is the theme as it would be had it completed; object 8
  is a second plugin, whose update has not started. In
  \<open>ex_busyProps\<close> the plugin is still in progress; in \<open>ex_doneProps\<close> the plugin and
  the theme have both completed. \<open>ex_waitingProps\<close> and \<open>ex_waitingPrevProps\<close> are
  \<open>ex_props\<close> and \<open>ex_prevProps\<close> with the second plugin among the candidates.
\<close>

definition blank :: item where
  "blank = \<lparr>slug = [], type = [], name = [], version = [], updateStatus = None, from = []\<rparr>"

definition ex_heap :: "ref \<Rightarrow> item" where
  "ex_heap = (\<lambda>_. blank)
     (1 := \<lparr>slug = ''wordpress'', type = ''core'', name = ''WordPress'', version = ''5.0'',
            updateStatus = None, from = []\<rparr>,
      2 := \<lparr>slug = ''akismet'', type = ''plugin'', name = ''Akismet'', version = ''4.1'',
            updateStatus = Some ''completed'', from = []\<rparr>,
      3 := \<lparr>slug = ''dara'', type = ''theme'', name = ''Dara'', version = ''1.2'',
            updateStatus = Some ''error'', from = []\<rparr>,
      4 := \<lparr>slug = ''akismet'', type = ''plugin'', name = ''Akismet'', version = ''4.1'',
            updateStatus = None, from = []\<rparr>,
      5 := \<lparr>slug = ''akismet'', type = ''plugin'', name = ''Akismet'', version = ''4.1'',
            updateStatus = Some ''inProgress'', from = []\<rparr>,
      6 := \<lparr>slug = ''dara'', type = ''theme'', name = ''Dara'', version = ''1.2'',
            updateStatus = Some ''inProgress'', from = []\<rparr>,
      7 := \<lparr>slug = ''dara'', type = ''theme'', name = ''Dara'', version = ''1.2'',
            updateStatus = Some ''completed'', from = []\<rparr>,
      8 := \<lparr>slug = ''jetpack'', type = ''plugin'', name = ''Jetpack'', version = ''6.8'',
            updateStatus = None, from = []\<rparr>)"

definition ex_props :: props where
  "ex_props = \<lparr>siteId = 7, siteSlug = ''example.blog'', siteName = ''Example'',
               coreWithUpdate = [1], pluginWithUpdate = [2], themeWithUpdate = [3]\<rparr>"

definition ex_prevProps :: props where
  "ex_prevProps = \<lparr>siteId = 7, siteSlug = ''example.blog'', siteName = ''Example'',
               coreWithUpdate = [1], pluginWithUpdate = [5], themeWithUpdate = [6]\<rparr>"

definition ex_busyProps :: props where
  "ex_busyProps = \<lparr>siteId = 7, siteSlug = ''example.blog'', siteName = ''Example'',
               coreWithUpdate = [1], pluginWithUpdate = [5], themeWithUpdate = [3]\<rparr>"

definition ex_doneProps :: props where
  "ex_doneProps = \<lparr>siteId = 7, siteSlug = ''example.blog'', siteName = ''Example'',
               coreWithUpdate = [1], pluginWithUpdate = [2], themeWithUpdate = [7]\<rparr>"

definition ex_waitingProps :: props where
  "ex_waitingProps = \<lparr>siteId = 7, siteSlug = ''example.blog'', siteName = ''Example'',
               coreWithUpdate = [1], pluginWithUpdate = [2, 8], themeWithUpdate = [3]\<rparr>"

definition ex_waitingPrevProps :: props where
  "ex_waitingPrevProps = \<lparr>siteId = 7, siteSlug = ''example.blog'', siteName = ''Example'',
               coreWithUpdate = [1], pluginWithUpdate = [5, 8], themeWithUpdate = [6]\<rparr>"

definition ex_getHttpData :: "string \<Rightarrow> httpData" where
  "ex_getHttpData key =
     (if key = ''core-update-7'' then \<lparr>state = ''success'', themes0_update = Missing\<rparr>
      else \<lparr>state = ''uninitialized'', themes0_update = Missing\<rparr>)"

section \<open>Basic facts\<close>

lemmas ex_defs = blank_def ex_heap_def ex_props_def ex_prevProps_def ex_busyProps_def
  ex_doneProps_def ex_waitingProps_def ex_waitingPrevProps_def initial_def

lemmas run_defs = componentDidUpdate_def reconcileItem_def prevUpdateStatus_def
  propWithUpdate_def isItemUpdating_def dequeue_call_def dismiss_call_def enqueue_call_def
  setState_def flush_def merge_def afterCall_def continueQueue_def updateItem_def
  trackUpdate_def updateSingle_def updateTheme_def updateCore_def trackDismiss_def emit_def
  noticeId_def runBatch_def union_def Let_def

lemma string_of_nat_7: "string_of_nat 7 = ''7''"
  by code_simp

subsection \<open>\<open>union\<close>\<close>

lemma baseUniq_set: "set (baseUniq result xs) = set result \<union> set xs"
  by (induction xs arbitrary: result) auto

lemma baseUniq_distinct: "distinct result \<Longrightarrow> distinct (baseUniq result xs)"
  by (induction xs arbitrary: result) auto

lemma baseUniq_append: "baseUniq result (xs @ ys) = baseUniq (baseUniq result xs) ys"
  by (induction xs arbitrary: result) auto

lemma baseUniq_absorb: "set xs \<subseteq> set result \<Longrightarrow> baseUniq result xs = result"
  by (induction xs arbitrary: result) auto

lemma baseUniq_fresh: "distinct (result @ xs) \<Longrightarrow> baseUniq result xs = result @ xs"
  by (induction xs arbitrary: result) auto

lemma union_set: "set (union arrays) = \<Union> (set ` set arrays)"
  by (simp add: union_def baseUniq_set)

lemma union_distinct: "distinct (union arrays)"
  by (simp add: union_def baseUniq_distinct)

lemma union_snoc_old: "distinct q \<Longrightarrow> r \<in> set q \<Longrightarrow> union [q, [r]] = q"
  by (simp add: union_def baseUniq_append baseUniq_fresh)

lemma union_snoc_new: "distinct q \<Longrightarrow> r \<notin> set q \<Longrightarrow> union [q, [r]] = q @ [r]"
  by (simp add: union_def baseUniq_append baseUniq_fresh)

subsection \<open>What each operation leaves alone\<close>

lemma isItemUpdating_iff:
  "isItemUpdating h s \<longleftrightarrow> (\<exists>r \<in> set s. updateStatus (h r) = Some ''inProgress'')"
  by (auto simp: isItemUpdating_def list_ex_iff eq_commute)

lemma emit_fields [simp]:
  "heap (emit e w) = heap w" "dismissed (emit e w) = dismissed w"
  "queued (emit e w) = queued w" "effects (emit e w) = effects w @ [e]"
  by (simp_all add: emit_def)

lemma updateSingle_fields [simp]:
  "heap (updateSingle p r w) = heap w" "dismissed (updateSingle p r w) = dismissed w"
  "queued (updateSingle p r w) = queued w"
  by (simp_all add: updateSingle_def updateCore_def updateTheme_def Let_def)


lemma updateItem_fields [simp]:
  "heap (updateItem p r w) = heap w" "dismissed (updateItem p r w) = dismissed w"
  "queued (updateItem p r w) = queued w"
  by (simp_all add: updateItem_def trackUpdate_def Let_def)


lemma continueQueue_fields [simp]:
  "heap (continueQueue p w) = heap w" "dismissed (continueQueue p w) = dismissed w"
  "queued (continueQueue p w) = queued w"
  by (simp_all add: continueQueue_def Let_def)

lemma enqueue_fields [simp]:
  "dismissed (enqueue p r f w) = dismissed w"
  "queued (enqueue p r f w) = union [queued w, [r]]"
  "heap (enqueue p r f w) = (heap w)(r := (heap w r)\<lparr>from := f\<rparr>)"
  by (simp_all add: enqueue_def Let_def)

lemma dequeue_fields [simp]:
  "dismissed (dequeue p w) = dismissed w"
  "queued (dequeue p w) = drop 1 (queued w)"
  "heap (dequeue p w) = heap w"
  by (simp_all add: dequeue_def)

lemma dismiss_fields [simp]:
  "queued (dismiss p a w) = queued w"
  "heap (dismiss p a w) = heap w"
  by (simp_all add: dismiss_def trackDismiss_def trackDismissAll_def Let_def split: dismiss_arg.split)

lemma dismiss_mono: "set (dismissed w) \<subseteq> set (dismissed (dismiss p a w))"
  by (auto simp: dismiss_def trackDismiss_def trackDismissAll_def Let_def union_set
        split: dismiss_arg.split)

lemma updateItem_dismissed_update:
  "updateItem p r (w\<lparr>dismissed := d\<rparr>) = (updateItem p r w)\<lparr>dismissed := d\<rparr>"
  by (simp add: updateItem_def trackUpdate_def updateSingle_def updateCore_def updateTheme_def
        emit_def Let_def)

lemma continueQueue_dismissed_update:
  "continueQueue p (w\<lparr>dismissed := d\<rparr>) = (continueQueue p w)\<lparr>dismissed := d\<rparr>"
  by (simp add: continueQueue_def Let_def updateItem_dismissed_update)

subsection \<open>Batches\<close>

lemma flush_Nil [simp]: "flush p (w, []) = w"
  by (simp add: flush_def)

lemma merge_fields [simp]:
  "heap (merge u w) = heap w" "effects (merge u w) = effects w"
  "dismissed (merge u w) = (case new_dismissed u of None \<Rightarrow> dismissed w | Some d \<Rightarrow> d)"
  "queued (merge u w) = (case new_queued u of None \<Rightarrow> queued w | Some q \<Rightarrow> q)"
  by (simp_all add: merge_def Let_def split: option.split)

lemma afterCall_fields [simp]:
  "heap (afterCall p u w) = heap w" "dismissed (afterCall p u w) = dismissed w"
  "queued (afterCall p u w) = queued w"
  by (simp_all add: afterCall_def split: setState_callback.split)

text \<open>A method called on its own is its body run in a batch of one call.\<close>

lemma dismiss_alone: "dismiss p a w = flush p (dismiss_call p a (w, []))"
  by (simp add: dismiss_def dismiss_call_def setState_def flush_def merge_def afterCall_def
        trackDismiss_def trackDismissAll_def Let_def split: dismiss_arg.split)

lemma dequeue_alone: "dequeue p w = flush p (dequeue_call (w, []))"
  by (simp add: dequeue_def dequeue_call_def setState_def flush_def merge_def afterCall_def)

lemma enqueue_alone: "enqueue p r f w = flush p (enqueue_call r f (w, []))"
  by (simp add: enqueue_def enqueue_call_def setState_def flush_def merge_def afterCall_def
        Let_def)

lemma finalValue_simps [simp]:
  "finalValue x [] = x"
  "finalValue x (None # os) = finalValue x os"
  "finalValue x (Some y # os) = finalValue y os"
  by (simp_all add: finalValue_def)

lemma finalValue_append: "finalValue x (os @ os') = finalValue (finalValue x os) os'"
  by (simp add: finalValue_def)

lemma finalValue_const:
  "\<forall>o' \<in> set os. o' = None \<or> o' = Some q \<Longrightarrow>
     finalValue x os = (if \<exists>o' \<in> set os. o' \<noteq> None then q else x)"
proof (induction os arbitrary: x)
  case Nil
  show ?case by simp
next
  case (Cons a os)
  then show ?case by (cases a) auto
qed

lemma merge_as_update:
  "merge u w = w\<lparr>dismissed := finalValue (dismissed w) [new_dismissed u],
                   queued := finalValue (queued w) [new_queued u]\<rparr>"
  by (cases "new_dismissed u"; cases "new_queued u") (simp_all add: merge_def)

lemma merges_as_update:
  "foldl (\<lambda>w u. merge u w) w us =
     w\<lparr>dismissed := finalValue (dismissed w) (map new_dismissed us),
        queued := finalValue (queued w) (map new_queued us)\<rparr>"
proof (induction us arbitrary: w)
  case Nil
  show ?case by simp
next
  case (Cons u us)
  show ?case
    unfolding foldl_Cons Cons.IH
    by (cases "new_dismissed u"; cases "new_queued u") (simp_all add: merge_as_update)
qed

lemma continueQueue_funpow_fields [simp]:
  "heap ((continueQueue p ^^ n) w) = heap w"
  "dismissed ((continueQueue p ^^ n) w) = dismissed w"
  "queued ((continueQueue p ^^ n) w) = queued w"
  by (induction n) simp_all

lemma continueQueue_funpow_dismissed_update:
  "(continueQueue p ^^ n) (w\<lparr>dismissed := d\<rparr>) = ((continueQueue p ^^ n) w)\<lparr>dismissed := d\<rparr>"
  by (induction n) (simp_all add: continueQueue_dismissed_update)

lemma afterCalls_funpow:
  "foldl (\<lambda>w u. afterCall p u w) w us =
     (continueQueue p ^^ length (filter (\<lambda>u. then_call u = ContinueQueue) us)) w"
proof (induction us arbitrary: w)
  case Nil
  show ?case by simp
next
  case (Cons u us)
  show ?case
    unfolding foldl_Cons Cons.IH
    by (cases "then_call u") (simp_all add: afterCall_def funpow_swap1)
qed

lemma callbacks_count:
  "length (filter (\<lambda>u. then_call u = ContinueQueue) us)
     = length (filter (\<lambda>c. c = ContinueQueue) (map then_call us))"
  by (induction us) simp_all

text \<open>
  A batch in normal form: the queue and the dismissed slugs take the last value
  set for them, and \<open>continueQueue\<close> runs once for each call that passed it.
\<close>

lemma flush_normal:
  "flush p (w, us) =
     ((continueQueue p ^^ length (filter (\<lambda>u. then_call u = ContinueQueue) us))
        (w\<lparr>queued := finalValue (queued w) (map new_queued us)\<rparr>))
     \<lparr>dismissed := finalValue (dismissed w) (map new_dismissed us)\<rparr>"
proof -
  have "w\<lparr>dismissed := finalValue (dismissed w) (map new_dismissed us),
          queued := finalValue (queued w) (map new_queued us)\<rparr>
        = (w\<lparr>queued := finalValue (queued w) (map new_queued us)\<rparr>)
            \<lparr>dismissed := finalValue (dismissed w) (map new_dismissed us)\<rparr>"
    by simp
  then show ?thesis
    by (simp only: flush_def fst_conv snd_conv merges_as_update afterCalls_funpow
          continueQueue_funpow_dismissed_update)
qed

lemma flush_fields:
  "heap (flush p (w, us)) = heap w"
  "queued (flush p (w, us)) = finalValue (queued w) (map new_queued us)"
  "dismissed (flush p (w, us)) = finalValue (dismissed w) (map new_dismissed us)"
  by (simp_all add: flush_normal)

lemma flush_ignores_dismissed:
  assumes "map new_queued us = map new_queued us'" and "map then_call us = map then_call us'"
  shows "queued (flush p (w\<lparr>dismissed := d\<rparr>, us)) = queued (flush p (w, us'))"
    and "effects (flush p (w\<lparr>dismissed := d\<rparr>, us)) = effects (flush p (w, us'))"
proof -
  have n: "length (filter (\<lambda>u. then_call u = ContinueQueue) us)
         = length (filter (\<lambda>u. then_call u = ContinueQueue) us')"
    using assms(2) by (simp add: callbacks_count)
  have sw: "w\<lparr>dismissed := d, queued := q\<rparr> = (w\<lparr>queued := q\<rparr>)\<lparr>dismissed := d\<rparr>" for q
    by simp
  show "queued (flush p (w\<lparr>dismissed := d\<rparr>, us)) = queued (flush p (w, us'))"
    using assms(1) by (simp add: flush_fields)
  show "effects (flush p (w\<lparr>dismissed := d\<rparr>, us)) = effects (flush p (w, us'))"
    using assms(1) n
    by (simp add: flush_normal sw continueQueue_funpow_dismissed_update)
qed

subsection \<open>The loop of \<open>componentDidUpdate\<close>\<close>

lemma item_ignores_effects [simp]:
  "itemEffects p prevProps (w\<lparr>effects := e\<rparr>) = itemEffects p prevProps w"
  "itemCalls prevProps (w\<lparr>effects := e\<rparr>) = itemCalls prevProps w"
  by (auto simp: itemEffects_def itemCalls_def fun_eq_iff)

lemma item_ignores_dismissed:
  "itemEffects p prevProps (w\<lparr>dismissed := d\<rparr>) r = itemEffects p prevProps w r"
  "map new_queued (itemCalls prevProps (w\<lparr>dismissed := d\<rparr>) r)
     = map new_queued (itemCalls prevProps w r)"
  "map then_call (itemCalls prevProps (w\<lparr>dismissed := d\<rparr>) r)
     = map then_call (itemCalls prevProps w r)"
  by (simp_all add: itemEffects_def itemCalls_def)

lemma items_ignore_dismissed:
  "concat (map (itemEffects p prevProps (w\<lparr>dismissed := d\<rparr>)) rs)
     = concat (map (itemEffects p prevProps w) rs)"
  "map new_queued (concat (map (itemCalls prevProps (w\<lparr>dismissed := d\<rparr>)) rs))
     = map new_queued (concat (map (itemCalls prevProps w) rs))"
  "map then_call (concat (map (itemCalls prevProps (w\<lparr>dismissed := d\<rparr>)) rs))
     = map then_call (concat (map (itemCalls prevProps w) rs))"
  by (induction rs) (simp_all add: item_ignores_dismissed)

lemma reconcileItem_eq:
  "reconcileItem p prevProps r (w, us) =
     (w\<lparr>effects := effects w @ itemEffects p prevProps w r\<rparr>, us @ itemCalls prevProps w r)"
  by (auto simp: reconcileItem_def itemEffects_def itemCalls_def fires_def isItemUpdating_iff
        dequeue_call_def dismiss_call_def setState_def trackDismiss_def emit_def noticeId_def
        Let_def)

lemma reconcile_loop:
  "foldl (\<lambda>b r. reconcileItem p prevProps r b) (w, us) rs =
     (w\<lparr>effects := effects w @ concat (map (itemEffects p prevProps w) rs)\<rparr>,
      us @ concat (map (itemCalls prevProps w) rs))"
proof (induction rs arbitrary: w us)
  case Nil
  show ?case by simp
next
  case (Cons r rs)
  show ?case by (simp add: reconcileItem_eq Cons.IH)
qed

lemma componentDidUpdate_eq:
  "componentDidUpdate p prevProps w =
     flush p
       (w\<lparr>effects := effects w @ concat (map (itemEffects p prevProps w)
                         (union [coreWithUpdate p, pluginWithUpdate p, themeWithUpdate p]))\<rparr>,
        concat (map (itemCalls prevProps w)
                  (union [coreWithUpdate p, pluginWithUpdate p, themeWithUpdate p])))"
  by (simp add: componentDidUpdate_def Let_def reconcile_loop)

lemma itemCalls_queued:
  "\<forall>o' \<in> set (map new_queued (concat (map (itemCalls prevProps w) rs))).
      o' = None \<or> o' = Some (drop 1 (queued w))"
  by (auto simp: itemCalls_def)

lemma itemCalls_dequeues:
  "(\<exists>o' \<in> set (map new_queued (concat (map (itemCalls prevProps w) rs))). o' \<noteq> None)
     \<longleftrightarrow> (\<exists>r \<in> set rs. fires prevProps (heap w) r)"
  by (auto simp: itemCalls_def split: if_splits)

lemma itemCalls_final_dismissed:
  "set (dismissed w) \<subseteq>
     set (finalValue d (map new_dismissed (concat (map (itemCalls prevProps w) rs))))
   \<or> finalValue d (map new_dismissed (concat (map (itemCalls prevProps w) rs))) = d"
proof (induction rs arbitrary: d)
  case Nil
  show ?case by simp
next
  case (Cons r rs)
  show ?case
    using Cons.IH [of d] Cons.IH [of "union [dismissed w, [slug (heap w r)]]"]
    by (auto simp: itemCalls_def finalValue_append union_set)
qed

lemma componentDidUpdate_mono:
  "set (dismissed w) \<subseteq> set (dismissed (componentDidUpdate p prevProps w))"
  using itemCalls_final_dismissed [of w "dismissed w" prevProps
      "union [coreWithUpdate p, pluginWithUpdate p, themeWithUpdate p]"]
  by (auto simp: componentDidUpdate_eq flush_fields)

lemma componentDidUpdate_queued:
  "queued (componentDidUpdate p prevProps w) =
     (if \<exists>r \<in> set (union [coreWithUpdate p, pluginWithUpdate p, themeWithUpdate p]).
            fires prevProps (heap w) r
      then drop 1 (queued w) else queued w)"
  unfolding componentDidUpdate_eq flush_fields
  using finalValue_const [OF itemCalls_queued] itemCalls_dequeues
  by simp

lemma componentDidUpdate_ignores_dismissed:
  "queued (componentDidUpdate p prevProps (w\<lparr>dismissed := d\<rparr>))
     = queued (componentDidUpdate p prevProps w)"
  "effects (componentDidUpdate p prevProps (w\<lparr>dismissed := d\<rparr>))
     = effects (componentDidUpdate p prevProps w)"
proof -
  let ?C = "union [coreWithUpdate p, pluginWithUpdate p, themeWithUpdate p]"
  let ?E = "concat (map (itemEffects p prevProps w) ?C)"
  have sw: "w\<lparr>dismissed := d, effects := effects w @ ?E\<rparr>
            = (w\<lparr>effects := effects w @ ?E\<rparr>)\<lparr>dismissed := d\<rparr>"
    by simp
  show "queued (componentDidUpdate p prevProps (w\<lparr>dismissed := d\<rparr>))
     = queued (componentDidUpdate p prevProps w)"
    unfolding componentDidUpdate_eq
    by (simp add: items_ignore_dismissed sw flush_ignores_dismissed(1) del: flush_Nil)
  show "effects (componentDidUpdate p prevProps (w\<lparr>dismissed := d\<rparr>))
     = effects (componentDidUpdate p prevProps w)"
    unfolding componentDidUpdate_eq
    by (simp add: items_ignore_dismissed sw flush_ignores_dismissed(2) del: flush_Nil)
qed

subsection \<open>Runs\<close>

lemma runBatch_alone:
  "runBatch p [Enqueue r f] w = enqueue p r f w"
  "runBatch p [Dequeue] w = dequeue p w"
  by (simp_all add: runBatch_def enqueue_alone dequeue_alone)

text \<open>Two calls of \<open>dequeue\<close> in one batch remove one entry: both read the same queue.\<close>

lemma dequeues_in_one_batch:
  "queued (runBatch p [Dequeue, Dequeue] w) = drop 1 (queued w)"
  by (simp add: runBatch_def dequeue_call_def setState_def flush_fields)

lemma alone_cases:
  "alone cs w \<Longrightarrow>
     (\<exists>r f. cs = [Enqueue r f] \<and> r \<notin> set (queued w)) \<or> (cs = [Dequeue] \<and> queued w \<noteq> [])"
  by (cases "(cs, w)" rule: alone.cases) auto

lemma run_queue:
  "distinct (queued w) \<Longrightarrow> admissible bs w \<Longrightarrow>
     queued (run bs w) = drop (dequeues bs) (queued w @ enqueues bs)
     \<and> dequeues bs \<le> length (queued w) + length (enqueues bs)"
proof (induction bs arbitrary: w)
  case Nil
  then show ?case by (simp add: enqueues_def dequeues_def)
next
  case (Cons b bs)
  obtain p cs where b: "b = (p, cs)" by (cases b)
  from Cons.prems b have al: "alone cs w" and adm: "admissible bs (runBatch p cs w)"
    by simp_all
  from alone_cases [OF al] show ?case
  proof (elim disjE exE conjE)
    fix r f
    assume cs: "cs = [Enqueue r f]" and fresh: "r \<notin> set (queued w)"
    have q: "queued (runBatch p cs w) = queued w @ [r]"
      using Cons.prems(1) fresh by (simp add: cs runBatch_alone union_snoc_new)
    have "distinct (queued (runBatch p cs w))"
      by (simp add: cs runBatch_alone union_distinct)
    from Cons.IH [OF this adm]
    have "queued (run bs (runBatch p cs w))
            = drop (dequeues bs) ((queued w @ [r]) @ enqueues bs)
          \<and> dequeues bs \<le> length (queued w @ [r]) + length (enqueues bs)"
      unfolding q .
    then show ?thesis
      by (simp add: b cs enqueues_def dequeues_def)
  next
    assume cs: "cs = [Dequeue]" and ne: "queued w \<noteq> []"
    from ne obtain x xs where xs: "queued w = x # xs" by (cases "queued w") auto
    have q: "queued (runBatch p cs w) = xs"
      by (simp add: cs runBatch_alone xs)
    have "distinct (queued (runBatch p cs w))"
      using Cons.prems(1) by (simp add: q xs)
    from Cons.IH [OF this adm]
    have "queued (run bs (runBatch p cs w)) = drop (dequeues bs) (xs @ enqueues bs)
          \<and> dequeues bs \<le> length xs + length (enqueues bs)"
      unfolding q .
    then show ?thesis
      by (simp add: b cs xs enqueues_def dequeues_def)
  qed
qed

subsection \<open>Refreshes of the small site\<close>

text \<open>
  The plugin has completed and the theme has failed since the previous observation,
  and both are queued. Both calls of \<open>dequeue\<close> set the queue to its tail, the theme
  stays at the head, and each of the two callbacks starts its update.
\<close>

lemma ex_refresh_plugin_done_theme_failed:
  "componentDidUpdate ex_props ex_prevProps ((initial ex_heap)\<lparr>queued := [2, 3]\<rparr>) =
     (initial ex_heap)
       \<lparr>dismissed := [''akismet''], queued := [3],
        effects :=
          [SuccessNotice
             (Translate ''Successfully updated %(item)s on %(siteName)s.''
                [(''item'', ''Akismet''), (''siteName'', ''Example'')])
             ''alitemupdate-akismet'' 3000,
           RecordTracksEvent ''calypso_activitylog_tasklist_dismiss_plugin'' (Some ''akismet''),
           ErrorNotice
             (Translate ''An error occurred while updating %(item)s on %(siteName)s.''
                [(''item'', ''Dara''), (''siteName'', ''Example'')])
             ''alitemupdate-dara'' (Translate ''Try again'' [])
             (EnqueueCallback 3 ''_from_error''),
           RecordTracksEvent ''calypso_activitylog_tasklist_update_theme'' (Some ''dara''),
           RequestHttpData ''theme-update-7-dara'' ''POST'' ''/sites/7/themes'',
           InfoNotice
             (Translate ''Updating %(item)s on %(siteName)s.''
                [(''item'', ''Dara''), (''siteName'', ''Example'')])
             ''alitemupdate-dara'' False,
           RecordTracksEvent ''calypso_activitylog_tasklist_update_theme'' (Some ''dara''),
           RequestHttpData ''theme-update-7-dara'' ''POST'' ''/sites/7/themes'',
           InfoNotice
             (Translate ''Updating %(item)s on %(siteName)s.''
                [(''item'', ''Dara''), (''siteName'', ''Example'')])
             ''alitemupdate-dara'' False]\<rparr>"
  by (simp add: ex_defs run_defs string_of_nat_7)

lemma ex_refresh_both_done:
  "dismissed (componentDidUpdate ex_doneProps ex_prevProps ((initial ex_heap)\<lparr>queued := [2, 3]\<rparr>)) = [''dara'']"
  by (simp add: componentDidUpdate_eq flush_fields itemCalls_def fires_def ex_defs
        prevUpdateStatus_def propWithUpdate_def union_def)


section \<open>Properties of the sequencer\<close>




text \<open>
  C2. \<open>componentDidUpdate\<close> visits every candidate once, in the order core, plugins,
  themes, and React applies the collected calls of \<open>setState\<close> afterwards. For an
  item whose previous \<open>updateStatus\<close> (found by type and slug in the previous props)
  was not \<open>false\<close> and differs from the current one: when the current status is
  \<open>error\<close>, an error notice with a "Try again" button is shown, whose click runs
  \<open>enqueue(item, '_from_error')\<close>, and \<open>dequeue\<close> is called; when it is
  \<open>completed\<close>, a success notice is shown and \<open>dismiss(item)\<close> and \<open>dequeue\<close> are
  called. An item whose previous status was \<open>false\<close>, whose status is unchanged, or
  which is in progress, causes nothing. The calls of \<open>dequeue\<close> of one refresh all
  set the queue to the tail of the queue before the loop.
\<close>

theorem componentDidUpdate_reconciles:
  "componentDidUpdate p prevProps w =
     flush p (foldl (\<lambda>b r. reconcileItem p prevProps r b) (w, [])
                (union [coreWithUpdate p, pluginWithUpdate p, themeWithUpdate p]))
   \<and> foldl (\<lambda>b r. reconcileItem p prevProps r b) (w, [])
       (union [coreWithUpdate p, pluginWithUpdate p, themeWithUpdate p]) =
     (w\<lparr>effects := effects w @ concat (map (itemEffects p prevProps w)
                         (union [coreWithUpdate p, pluginWithUpdate p, themeWithUpdate p]))\<rparr>,
      concat (map (itemCalls prevProps w)
                (union [coreWithUpdate p, pluginWithUpdate p, themeWithUpdate p])))
   \<and> queued (componentDidUpdate p prevProps w) =
       (if \<exists>r \<in> set (union [coreWithUpdate p, pluginWithUpdate p, themeWithUpdate p]).
              fires prevProps (heap w) r
        then drop 1 (queued w) else queued w)
   \<and> (prevUpdateStatus prevProps (heap w) (heap w r) \<noteq> None
       \<and> prevUpdateStatus prevProps (heap w) (heap w r) \<noteq> updateStatus (heap w r)
       \<and> updateStatus (heap w r) = Some ''error''
       \<longrightarrow> reconcileItem p prevProps r (w, us) =
             (emit (ErrorNotice
                    (Translate ''An error occurred while updating %(item)s on %(siteName)s.''
                       [(''item'', name (heap w r)), (''siteName'', siteName p)])
                    (''alitemupdate-'' @ slug (heap w r)) (Translate ''Try again'' [])
                    (EnqueueCallback r ''_from_error'')) w,
              us @ [\<lparr>new_dismissed = None, new_queued = Some (drop 1 (queued w)),
                      then_call = ContinueQueue\<rparr>]))
   \<and> (prevUpdateStatus prevProps (heap w) (heap w r) \<noteq> None
       \<and> prevUpdateStatus prevProps (heap w) (heap w r) \<noteq> updateStatus (heap w r)
       \<and> updateStatus (heap w r) = Some ''completed''
       \<longrightarrow> reconcileItem p prevProps r (w, us) =
             (emit (RecordTracksEvent
                      (''calypso_activitylog_tasklist_dismiss_'' @ type (heap w r))
                      (Some (slug (heap w r))))
                (emit (SuccessNotice
                       (Translate ''Successfully updated %(item)s on %(siteName)s.''
                          [(''item'', name (heap w r)), (''siteName'', siteName p)])
                       (''alitemupdate-'' @ slug (heap w r)) 3000) w),
              us @ [\<lparr>new_dismissed = Some (union [dismissed w, [slug (heap w r)]]),
                      new_queued = None, then_call = NoCallback\<rparr>,
                    \<lparr>new_dismissed = None, new_queued = Some (drop 1 (queued w)),
                      then_call = ContinueQueue\<rparr>]))
   \<and> (prevUpdateStatus prevProps (heap w) (heap w r) = None
       \<or> prevUpdateStatus prevProps (heap w) (heap w r) = updateStatus (heap w r)
       \<or> updateStatus (heap w r) = Some ''inProgress''
       \<longrightarrow> reconcileItem p prevProps r (w, us) = (w, us))
   \<and> runCallback p' (EnqueueCallback r ''_from_error'') w' = enqueue p' r ''_from_error'' w'
   \<and> queued (runCallback p' (EnqueueCallback r ''_from_error'') w') = union [queued w', [r]]
   \<and> from (heap (runCallback p' (EnqueueCallback r ''_from_error'') w') r) = ''_from_error''"
proof -
  have upd: "isItemUpdating (heap w) [r] \<longleftrightarrow> updateStatus (heap w r) = Some ''inProgress''"
    by (simp add: isItemUpdating_iff)
  have 1: "componentDidUpdate p prevProps w =
     flush p (foldl (\<lambda>b r. reconcileItem p prevProps r b) (w, [])
                (union [coreWithUpdate p, pluginWithUpdate p, themeWithUpdate p]))"
    by (simp add: componentDidUpdate_def Let_def)
  have 2: "foldl (\<lambda>b r. reconcileItem p prevProps r b) (w, [])
       (union [coreWithUpdate p, pluginWithUpdate p, themeWithUpdate p]) =
     (w\<lparr>effects := effects w @ concat (map (itemEffects p prevProps w)
                         (union [coreWithUpdate p, pluginWithUpdate p, themeWithUpdate p]))\<rparr>,
      concat (map (itemCalls prevProps w)
                (union [coreWithUpdate p, pluginWithUpdate p, themeWithUpdate p])))"
    by (simp add: reconcile_loop)
  have 3: "queued (componentDidUpdate p prevProps w) =
       (if \<exists>r \<in> set (union [coreWithUpdate p, pluginWithUpdate p, themeWithUpdate p]).
              fires prevProps (heap w) r
        then drop 1 (queued w) else queued w)"
    by (rule componentDidUpdate_queued)
  have 4: "(prevUpdateStatus prevProps (heap w) (heap w r) \<noteq> None
       \<and> prevUpdateStatus prevProps (heap w) (heap w r) \<noteq> updateStatus (heap w r)
       \<and> updateStatus (heap w r) = Some ''error''
       \<longrightarrow> reconcileItem p prevProps r (w, us) =
             (emit (ErrorNotice
                    (Translate ''An error occurred while updating %(item)s on %(siteName)s.''
                       [(''item'', name (heap w r)), (''siteName'', siteName p)])
                    (''alitemupdate-'' @ slug (heap w r)) (Translate ''Try again'' [])
                    (EnqueueCallback r ''_from_error'')) w,
              us @ [\<lparr>new_dismissed = None, new_queued = Some (drop 1 (queued w)),
                      then_call = ContinueQueue\<rparr>]))"
    by (auto simp: reconcileItem_def Let_def upd noticeId_def dequeue_call_def setState_def)
  have 5: "(prevUpdateStatus prevProps (heap w) (heap w r) \<noteq> None
       \<and> prevUpdateStatus prevProps (heap w) (heap w r) \<noteq> updateStatus (heap w r)
       \<and> updateStatus (heap w r) = Some ''completed''
       \<longrightarrow> reconcileItem p prevProps r (w, us) =
             (emit (RecordTracksEvent
                      (''calypso_activitylog_tasklist_dismiss_'' @ type (heap w r))
                      (Some (slug (heap w r))))
                (emit (SuccessNotice
                       (Translate ''Successfully updated %(item)s on %(siteName)s.''
                          [(''item'', name (heap w r)), (''siteName'', siteName p)])
                       (''alitemupdate-'' @ slug (heap w r)) 3000) w),
              us @ [\<lparr>new_dismissed = Some (union [dismissed w, [slug (heap w r)]]),
                      new_queued = None, then_call = NoCallback\<rparr>,
                    \<lparr>new_dismissed = None, new_queued = Some (drop 1 (queued w)),
                      then_call = ContinueQueue\<rparr>]))"
    by (auto simp: reconcileItem_def Let_def upd noticeId_def dequeue_call_def dismiss_call_def
          setState_def trackDismiss_def)
  have 6: "(prevUpdateStatus prevProps (heap w) (heap w r) = None
       \<or> prevUpdateStatus prevProps (heap w) (heap w r) = updateStatus (heap w r)
       \<or> updateStatus (heap w r) = Some ''inProgress''
       \<longrightarrow> reconcileItem p prevProps r (w, us) = (w, us))"
    by (auto simp: reconcileItem_def Let_def upd)
  have 7: "runCallback p' (EnqueueCallback r ''_from_error'') w' = enqueue p' r ''_from_error'' w'
   \<and> queued (runCallback p' (EnqueueCallback r ''_from_error'') w') = union [queued w', [r]]
   \<and> from (heap (runCallback p' (EnqueueCallback r ''_from_error'') w') r) = ''_from_error''"
    by simp
  show ?thesis using 1 2 3 4 5 6 7 by blast
qed

theorem componentDidUpdate_reconciles_witness:
  "fires ex_prevProps ex_heap 2 \<and> fires ex_prevProps ex_heap 3 \<and> \<not> fires ex_prevProps ex_heap 1
   \<and> queued (componentDidUpdate ex_props ex_prevProps ((initial ex_heap)\<lparr>queued := [2, 3]\<rparr>)) = [3]
   \<and> dismissed (componentDidUpdate ex_props ex_prevProps ((initial ex_heap)\<lparr>queued := [2, 3]\<rparr>)) = [''akismet'']
   \<and> queued (componentDidUpdate ex_doneProps ex_prevProps ((initial ex_heap)\<lparr>queued := [2, 3]\<rparr>)) = [3]
   \<and> dismissed (componentDidUpdate ex_doneProps ex_prevProps ((initial ex_heap)\<lparr>queued := [2, 3]\<rparr>)) = [''dara'']
   \<and> reconcileItem ex_props ex_prevProps 3 (((initial ex_heap)\<lparr>queued := [2, 3]\<rparr>), []) =
       (emit (ErrorNotice
                (Translate ''An error occurred while updating %(item)s on %(siteName)s.''
                   [(''item'', ''Dara''), (''siteName'', ''Example'')])
                ''alitemupdate-dara'' (Translate ''Try again'' [])
                (EnqueueCallback 3 ''_from_error'')) ((initial ex_heap)\<lparr>queued := [2, 3]\<rparr>),
        [\<lparr>new_dismissed = None, new_queued = Some [3], then_call = ContinueQueue\<rparr>])
   \<and> reconcileItem ex_props ex_prevProps 2 (((initial ex_heap)\<lparr>queued := [2, 3]\<rparr>), []) =
       (emit (RecordTracksEvent ''calypso_activitylog_tasklist_dismiss_plugin'' (Some ''akismet''))
          (emit (SuccessNotice
                   (Translate ''Successfully updated %(item)s on %(siteName)s.''
                      [(''item'', ''Akismet''), (''siteName'', ''Example'')])
                   ''alitemupdate-akismet'' 3000) ((initial ex_heap)\<lparr>queued := [2, 3]\<rparr>)),
        [\<lparr>new_dismissed = Some [''akismet''], new_queued = None, then_call = NoCallback\<rparr>,
         \<lparr>new_dismissed = None, new_queued = Some [3], then_call = ContinueQueue\<rparr>])
   \<and> reconcileItem ex_props ex_props 2 (((initial ex_heap)\<lparr>queued := [2, 3]\<rparr>), []) = (((initial ex_heap)\<lparr>queued := [2, 3]\<rparr>), [])
   \<and> reconcileItem ex_props ex_prevProps 1 (((initial ex_heap)\<lparr>queued := [2, 3]\<rparr>), []) = (((initial ex_heap)\<lparr>queued := [2, 3]\<rparr>), [])"
proof -
  have f2: "fires ex_prevProps ex_heap 2"
    by (simp add: fires_def ex_defs prevUpdateStatus_def propWithUpdate_def)
  have f3: "fires ex_prevProps ex_heap 3"
    by (simp add: fires_def ex_defs prevUpdateStatus_def propWithUpdate_def)
  have f1: "\<not> fires ex_prevProps ex_heap 1"
    by (simp add: fires_def ex_defs prevUpdateStatus_def propWithUpdate_def)
  have q31: "queued (componentDidUpdate ex_props ex_prevProps ((initial ex_heap)\<lparr>queued := [2, 3]\<rparr>)) = [3]"
    using componentDidUpdate_reconciles
        [of ex_props ex_prevProps "(initial ex_heap)\<lparr>queued := [2, 3]\<rparr>" 3 "[]" ex_props "initial ex_heap",
         THEN conjunct2, THEN conjunct2, THEN conjunct1]
    by (simp add: fires_def ex_defs prevUpdateStatus_def propWithUpdate_def union_def)
  have d31: "dismissed (componentDidUpdate ex_props ex_prevProps ((initial ex_heap)\<lparr>queued := [2, 3]\<rparr>)) = [''akismet'']"
    by (simp add: ex_refresh_plugin_done_theme_failed)
  have q32: "queued (componentDidUpdate ex_doneProps ex_prevProps ((initial ex_heap)\<lparr>queued := [2, 3]\<rparr>)) = [3]"
    using componentDidUpdate_reconciles
        [of ex_doneProps ex_prevProps "(initial ex_heap)\<lparr>queued := [2, 3]\<rparr>" 3 "[]" ex_props "initial ex_heap",
         THEN conjunct2, THEN conjunct2, THEN conjunct1]
    by (simp add: fires_def ex_defs prevUpdateStatus_def propWithUpdate_def union_def)
  have d32: "dismissed (componentDidUpdate ex_doneProps ex_prevProps ((initial ex_heap)\<lparr>queued := [2, 3]\<rparr>)) = [''dara'']"
    by (simp add: ex_refresh_both_done)
  have e3: "reconcileItem ex_props ex_prevProps 3 (((initial ex_heap)\<lparr>queued := [2, 3]\<rparr>), []) =
       (emit (ErrorNotice
                (Translate ''An error occurred while updating %(item)s on %(siteName)s.''
                   [(''item'', ''Dara''), (''siteName'', ''Example'')])
                ''alitemupdate-dara'' (Translate ''Try again'' [])
                (EnqueueCallback 3 ''_from_error'')) ((initial ex_heap)\<lparr>queued := [2, 3]\<rparr>),
        [\<lparr>new_dismissed = None, new_queued = Some [3], then_call = ContinueQueue\<rparr>])"
    using componentDidUpdate_reconciles
        [of ex_props ex_prevProps "(initial ex_heap)\<lparr>queued := [2, 3]\<rparr>" 3 "[]" ex_props "initial ex_heap",
         THEN conjunct2, THEN conjunct2, THEN conjunct2, THEN conjunct1]
    by (simp add: ex_defs prevUpdateStatus_def propWithUpdate_def)
  have e2: "reconcileItem ex_props ex_prevProps 2 (((initial ex_heap)\<lparr>queued := [2, 3]\<rparr>), []) =
       (emit (RecordTracksEvent ''calypso_activitylog_tasklist_dismiss_plugin'' (Some ''akismet''))
          (emit (SuccessNotice
                   (Translate ''Successfully updated %(item)s on %(siteName)s.''
                      [(''item'', ''Akismet''), (''siteName'', ''Example'')])
                   ''alitemupdate-akismet'' 3000) ((initial ex_heap)\<lparr>queued := [2, 3]\<rparr>)),
        [\<lparr>new_dismissed = Some [''akismet''], new_queued = None, then_call = NoCallback\<rparr>,
         \<lparr>new_dismissed = None, new_queued = Some [3], then_call = ContinueQueue\<rparr>])"
    using componentDidUpdate_reconciles
        [of ex_props ex_prevProps "(initial ex_heap)\<lparr>queued := [2, 3]\<rparr>" 2 "[]" ex_props "initial ex_heap",
         THEN conjunct2, THEN conjunct2, THEN conjunct2, THEN conjunct2, THEN conjunct1]
    by (simp add: ex_defs prevUpdateStatus_def propWithUpdate_def union_def)
  have n2: "reconcileItem ex_props ex_props 2 (((initial ex_heap)\<lparr>queued := [2, 3]\<rparr>), []) = (((initial ex_heap)\<lparr>queued := [2, 3]\<rparr>), [])"
    using componentDidUpdate_reconciles
        [of ex_props ex_props "(initial ex_heap)\<lparr>queued := [2, 3]\<rparr>" 2 "[]" ex_props "initial ex_heap",
         THEN conjunct2, THEN conjunct2, THEN conjunct2, THEN conjunct2, THEN conjunct2,
         THEN conjunct1]
    by (simp add: ex_defs prevUpdateStatus_def propWithUpdate_def)
  have n1: "reconcileItem ex_props ex_prevProps 1 (((initial ex_heap)\<lparr>queued := [2, 3]\<rparr>), []) = (((initial ex_heap)\<lparr>queued := [2, 3]\<rparr>), [])"
    using componentDidUpdate_reconciles
        [of ex_props ex_prevProps "(initial ex_heap)\<lparr>queued := [2, 3]\<rparr>" 1 "[]" ex_props "initial ex_heap",
         THEN conjunct2, THEN conjunct2, THEN conjunct2, THEN conjunct2, THEN conjunct2,
         THEN conjunct1]
    by (simp add: ex_defs prevUpdateStatus_def propWithUpdate_def)
  show ?thesis
    by (intro conjI) (rule f2, rule f3, rule f1, rule q31, rule d31, rule q32, rule d32, rule e3, rule e2, rule n2, rule n1)
qed

text \<open>
  Enqueueing the same object twice from the empty state leaves one entry in the
  queue, not two: the length of the queue is not the number of \<open>enqueue\<close> calls
  less the number of \<open>dequeue\<close> calls.
\<close>

theorem enqueue_same_object_counterexample:
  "int (length (queued (run [(ex_props, [Enqueue 2 []]), (ex_props, [Enqueue 2 []])]
                          (initial ex_heap))))
     \<noteq> int (length (enqueues [(ex_props, [Enqueue 2 []]), (ex_props, [Enqueue 2 []])]))
        - int (dequeues [(ex_props, [Enqueue 2 []]), (ex_props, [Enqueue 2 []])])"
  by (simp add: initial_def union_def runBatch_alone enqueues_def dequeues_def)

text \<open>
  C3 (amended). For every sequence of \<open>enqueue\<close> and \<open>dequeue\<close> calls from the empty
  state in which each call is applied before the next is made (every batch holds one
  call), each \<open>enqueue\<close> passes an object not in the queue at that moment and each
  \<open>dequeue\<close> finds the queue non-empty, the queue is the list of enqueued objects,
  in the order of their enqueueing, without its first \<open>d\<close> elements, where \<open>d\<close> is
  the number of \<open>dequeue\<close> calls; so its length is the number of \<open>enqueue\<close> calls
  less the number of \<open>dequeue\<close> calls, and objects leave in the order they came.
\<close>

theorem queue_fifo:
  "admissible bs (initial h) \<Longrightarrow>
     queued (run bs (initial h)) = drop (dequeues bs) (enqueues bs)
     \<and> dequeues bs \<le> length (enqueues bs)
     \<and> length (queued (run bs (initial h))) = length (enqueues bs) - dequeues bs"
  using run_queue [of "initial h" bs] by (simp add: initial_def)

theorem queue_fifo_witness:
  "admissible [(ex_props, [Enqueue 1 []]), (ex_props, [Enqueue 2 []]), (ex_props, [Dequeue]),
               (ex_busyProps, [Enqueue 3 []]), (ex_props, [Dequeue])] (initial ex_heap)
   \<and> queued (run [(ex_props, [Enqueue 1 []]), (ex_props, [Enqueue 2 []]), (ex_props, [Dequeue]),
               (ex_busyProps, [Enqueue 3 []]), (ex_props, [Dequeue])] (initial ex_heap)) = [3]"
proof -
  have a: "admissible [(ex_props, [Enqueue 1 []]), (ex_props, [Enqueue 2 []]),
               (ex_props, [Dequeue]), (ex_busyProps, [Enqueue 3 []]), (ex_props, [Dequeue])]
             (initial ex_heap)"
    by (simp add: initial_def union_def runBatch_alone)
  from queue_fifo [OF a] a show ?thesis by (simp add: enqueues_def dequeues_def)
qed

text \<open>
  C4. \<open>enqueue(item, from)\<close> stores \<open>from\<close> in the item, sets the queue to the
  \<open>union\<close> of the queue and the item, and then runs \<open>continueQueue\<close>. Enqueueing
  the same object again leaves the queue as it is; enqueueing another object, not yet
  queued, that has the slug of a queued one appends it, so the queue then holds two
  entries with that slug.
\<close>
theorem enqueue_union_by_identity:
  "from (heap (enqueue p r f w) r) = f
   \<and> enqueue p r f w =
       continueQueue p (w\<lparr>heap := (heap w)(r := (heap w r)\<lparr>from := f\<rparr>),
                           queued := union [queued w, [r]]\<rparr>)
   \<and> queued (enqueue p' r f' (enqueue p r f w)) = queued (enqueue p r f w)
   \<and> (r' \<noteq> r \<and> r \<in> set (queued w) \<and> r' \<notin> set (queued w) \<and> distinct (queued w)
         \<and> slug (heap w r') = slug (heap w r)
       \<longrightarrow> queued (enqueue p r' f w) = queued w @ [r'])
   \<and> (r' \<noteq> r \<and> r' \<notin> set (queued w) \<and> slug (heap w r') = slug (heap w r)
       \<longrightarrow> queued (enqueue p' r' f' (enqueue p r f w)) = queued (enqueue p r f w) @ [r'])"
proof -
  let ?U = "union [queued w, [r]]"
  have d: "distinct ?U" by (rule union_distinct)
  have m: "r \<in> set ?U" by (simp add: union_set)
  have "union [?U, [r]] = ?U" using d m by (rule union_snoc_old)
  then have twice: "queued (enqueue p' r f' (enqueue p r f w)) = queued (enqueue p r f w)"
    by simp
  have trig: "enqueue p r f w =
       continueQueue p (w\<lparr>heap := (heap w)(r := (heap w r)\<lparr>from := f\<rparr>),
                           queued := union [queued w, [r]]\<rparr>)"
    by (simp add: enqueue_def Let_def)
  have "r' \<noteq> r \<and> r' \<notin> set (queued w) \<Longrightarrow> union [?U, [r']] = ?U @ [r']"
    using d by (intro union_snoc_new) (simp_all add: union_set)
  then have other: "r' \<noteq> r \<and> r' \<notin> set (queued w)
      \<Longrightarrow> queued (enqueue p' r' f' (enqueue p r f w)) = queued (enqueue p r f w) @ [r']"
    by simp
  have fr: "from (heap (enqueue p r f w) r) = f" by simp
  have direct: "r' \<notin> set (queued w) \<and> distinct (queued w)
      \<Longrightarrow> queued (enqueue p r' f w) = queued w @ [r']"
    by (simp add: union_snoc_new)
  show ?thesis using twice trig other fr direct by blast
qed

theorem enqueue_union_by_identity_witness:
  "(4::nat) \<noteq> 2 \<and> slug (ex_heap 4) = slug (ex_heap 2)
   \<and> queued (enqueue ex_props 4 [] ((initial ex_heap)\<lparr>queued := [2]\<rparr>)) = [2, 4]
   \<and> queued (enqueue ex_props 2 ''_from_error'' (enqueue ex_props 2 [] (initial ex_heap))) = [2]
   \<and> queued (enqueue ex_props 4 [] (enqueue ex_props 2 [] (initial ex_heap))) = [2, 4]
   \<and> from (heap (enqueue ex_props 2 ''_from_error'' (initial ex_heap)) 2) = ''_from_error''"
  using enqueue_union_by_identity [of ex_props 2 "''_from_error''" "initial ex_heap" ex_props "[]" 4]
    enqueue_union_by_identity [of ex_props 2 "[]" "(initial ex_heap)\<lparr>queued := [2]\<rparr>" ex_props "[]" 4]
    enqueue_union_by_identity [of ex_props 2 "[]" "initial ex_heap" ex_props "''_from_error''" 4]
    enqueue_union_by_identity [of ex_props 2 "[]" "initial ex_heap" ex_props "[]" 4]
  by (simp add: ex_defs union_def)



text \<open>
  C6. \<open>dismiss\<close> never changes the queue. A dismissed item disappears from the list
  that \<open>render\<close> shows, but \<open>continueQueue\<close> and \<open>dequeue\<close> do not look at the
  dismissed slugs, and neither does reconciliation when it decides what to send and
  whether to dequeue, for one item as for a whole refresh: a dismissed item at the
  head of the queue is started like any other, and the queue advances past it.
\<close>

theorem dismiss_keeps_queue:
  "queued (dismiss p a w) = queued w
   \<and> (\<forall>r'. slug (heap w r') = slug (heap w r)
          \<longrightarrow> r' \<notin> set (itemsToUpdate p' (dismiss p (ItemArg r) w)))
   \<and> continueQueue p' (w\<lparr>dismissed := d\<rparr>) = (continueQueue p' w)\<lparr>dismissed := d\<rparr>
   \<and> dequeue p' (w\<lparr>dismissed := d\<rparr>) = (dequeue p' w)\<lparr>dismissed := d\<rparr>
   \<and> queued (componentDidUpdate p' prevProps (w\<lparr>dismissed := d\<rparr>))
       = queued (componentDidUpdate p' prevProps w)
   \<and> effects (componentDidUpdate p' prevProps (w\<lparr>dismissed := d\<rparr>))
       = effects (componentDidUpdate p' prevProps w)
   \<and> effects (fst (reconcileItem p' prevProps r (w\<lparr>dismissed := d\<rparr>, us)))
       = effects (fst (reconcileItem p' prevProps r (w, us)))
   \<and> map new_queued (snd (reconcileItem p' prevProps r (w\<lparr>dismissed := d\<rparr>, us)))
       = map new_queued (snd (reconcileItem p' prevProps r (w, us)))
   \<and> map then_call (snd (reconcileItem p' prevProps r (w\<lparr>dismissed := d\<rparr>, us)))
       = map then_call (snd (reconcileItem p' prevProps r (w, us)))
   \<and> (queued w \<noteq> [] \<and>
       \<not> isItemUpdating (heap w)
           (union [coreWithUpdate p', pluginWithUpdate p', themeWithUpdate p'])
       \<longrightarrow> continueQueue p' (dismiss p (ItemArg (hd (queued w))) w)
           = updateItem p' (hd (queued w)) (dismiss p (ItemArg (hd (queued w))) w))"
proof -
  have 1: "\<forall>r'. slug (heap w r') = slug (heap w r)
          \<longrightarrow> r' \<notin> set (itemsToUpdate p' (dismiss p (ItemArg r) w))"
    by (simp add: itemsToUpdate_def dismiss_def trackDismiss_def Let_def union_set)
  have 2: "dequeue p' (w\<lparr>dismissed := d\<rparr>) = (dequeue p' w)\<lparr>dismissed := d\<rparr>"
    by (cases w)
      (simp add: dequeue_def continueQueue_def updateItem_def trackUpdate_def updateSingle_def
         updateCore_def updateTheme_def emit_def Let_def)
  have 3: "queued w \<noteq> [] \<and>
       \<not> isItemUpdating (heap w)
           (union [coreWithUpdate p', pluginWithUpdate p', themeWithUpdate p'])
       \<longrightarrow> continueQueue p' (dismiss p (ItemArg (hd (queued w))) w)
           = updateItem p' (hd (queued w)) (dismiss p (ItemArg (hd (queued w))) w)"
    by (simp add: continueQueue_def Let_def hd_conv_nth)
  show ?thesis using 1 2 3
    by (simp add: continueQueue_dismissed_update componentDidUpdate_ignores_dismissed
          reconcileItem_eq item_ignores_dismissed)
qed

theorem dismiss_keeps_queue_witness:
  "queued ((initial ex_heap)\<lparr>queued := [1, 3]\<rparr>) \<noteq> []
   \<and> 1 \<notin> set (itemsToUpdate ex_props
                (dismiss ex_props (ItemArg 1) ((initial ex_heap)\<lparr>queued := [1, 3]\<rparr>)))
   \<and> queued (dismiss ex_props (ItemArg 1) ((initial ex_heap)\<lparr>queued := [1, 3]\<rparr>)) = [1, 3]
   \<and> continueQueue ex_props (dismiss ex_props (ItemArg 1) ((initial ex_heap)\<lparr>queued := [1, 3]\<rparr>))
       = updateItem ex_props 1 (dismiss ex_props (ItemArg 1) ((initial ex_heap)\<lparr>queued := [1, 3]\<rparr>))"
  using dismiss_keeps_queue [of ex_props "ItemArg 1" "(initial ex_heap)\<lparr>queued := [1, 3]\<rparr>" 1 ex_props "[]"
      ex_prevProps "[]"]
  by (simp add: ex_defs isItemUpdating_def union_def)

text \<open>
  With \<open>isUpdateComplete\<close> false, the state \<open>success\<close> is not normalised to
  \<open>completed\<close>.
\<close>
theorem getNormalizedStatus_success_incomplete_counterexample:
  "getNormalizedStatus ''success'' False \<noteq> Some ''completed''"
  by simp

text \<open>
  C7 (amended). Whatever the flag \<open>isUpdateComplete\<close>, \<open>getNormalizedStatus\<close> maps
  \<open>pending\<close> to \<open>{status: 'inProgress'}\<close>, \<open>failure\<close> to \<open>{status: 'error'}\<close>, and
  \<open>uninitialized\<close> or any other state to \<open>false\<close>; it maps \<open>success\<close> to
  \<open>{status: 'completed'}\<close> when the flag is true and to \<open>{status: 'error'}\<close> when
  it is false.
\<close>
theorem getNormalizedStatus_cases:
  "getNormalizedStatus ''pending'' isUpdateComplete = Some ''inProgress''
   \<and> getNormalizedStatus ''failure'' isUpdateComplete = Some ''error''
   \<and> getNormalizedStatus ''success'' True = Some ''completed''
   \<and> getNormalizedStatus ''success'' False = Some ''error''
   \<and> (st \<noteq> ''pending'' \<and> st \<noteq> ''failure'' \<and> st \<noteq> ''success''
        \<longrightarrow> getNormalizedStatus st isUpdateComplete = None)"
  by auto

theorem getNormalizedStatus_cases_witness:
  "''uninitialized'' \<noteq> ''pending'' \<and> ''uninitialized'' \<noteq> ''failure''
   \<and> ''uninitialized'' \<noteq> ''success''
   \<and> getNormalizedStatus ''uninitialized'' True = None"
  using getNormalizedStatus_cases [of True "''uninitialized''"]
  by simp

text \<open>
  C8. \<open>getStatusForCore\<close> never returns \<open>{status: 'completed'}\<close>: it passes
  \<open>false\<close> for \<open>isUpdateComplete\<close>, so a core update whose stored state is
  \<open>success\<close> gets the status \<open>error\<close>.
\<close>
theorem getStatusForCore_never_completed:
  "getStatusForCore getHttpData sid \<noteq> Some ''completed''
   \<and> (state (getHttpData (''core-update-'' @ string_of_nat sid)) = ''success''
        \<longrightarrow> getStatusForCore getHttpData sid = Some ''error'')"
  by (simp add: getStatusForCore_def Let_def)

theorem getStatusForCore_never_completed_witness:
  "state (ex_getHttpData (''core-update-'' @ string_of_nat 7)) = ''success''
   \<and> getStatusForCore ex_getHttpData 7 = Some ''error''"
  using getStatusForCore_never_completed [of ex_getHttpData 7]
  by (simp add: ex_getHttpData_def string_of_nat_7)

text \<open>
  C9. The exit handler calls \<open>next()\<close> exactly when the queue is empty or the user
  confirms. When the queue is not empty and the user declines, it schedules the
  replacement of the route by the view's own path instead; the queue, the dismissed
  slugs and the items are never changed.
\<close>
theorem exitHandler_guard:
  "(Next \<in> set (drop (length (effects w)) (effects (exitHandler p answer w)))
      \<longleftrightarrow> queued w = [] \<or> answer)
   \<and> (queued w \<noteq> [] \<and> \<not> answer \<longrightarrow>
        effects (exitHandler p answer w) = effects w @
          [Confirm (Translate ''Navigating away will cancel remaining updates'' []),
           SetTimeout_PageReplace (''/stats/activity/'' @ siteSlug p) 0])
   \<and> queued (exitHandler p answer w) = queued w
   \<and> dismissed (exitHandler p answer w) = dismissed w
   \<and> heap (exitHandler p answer w) = heap w"
  by (simp add: exitHandler_def Let_def)

theorem exitHandler_guard_witness:
  "queued ((initial ex_heap)\<lparr>queued := [2, 3]\<rparr>) \<noteq> []
   \<and> effects (exitHandler ex_props False ((initial ex_heap)\<lparr>queued := [2, 3]\<rparr>)) =
        [Confirm (Translate ''Navigating away will cancel remaining updates'' []),
         SetTimeout_PageReplace ''/stats/activity/example.blog'' 0]
   \<and> queued (exitHandler ex_props False ((initial ex_heap)\<lparr>queued := [2, 3]\<rparr>)) = [2, 3]
   \<and> Next \<in> set (effects (exitHandler ex_props True ((initial ex_heap)\<lparr>queued := [2, 3]\<rparr>)))
   \<and> Next \<in> set (effects (exitHandler ex_props False (initial ex_heap)))"
  using exitHandler_guard [of "(initial ex_heap)\<lparr>queued := [2, 3]\<rparr>" ex_props False]
    exitHandler_guard [of "(initial ex_heap)\<lparr>queued := [2, 3]\<rparr>" ex_props True]
    exitHandler_guard [of "initial ex_heap" ex_props False]
  by (simp add: ex_defs)

text \<open>
  C10. No operation removes a slug from \<open>dismissed\<close>. \<open>enqueue\<close>, \<open>dequeue\<close>,
  \<open>continueQueue\<close>, \<open>updateItem\<close>, \<open>updateAll\<close> and the exit handler leave
  \<open>dismissed\<close> as it is; \<open>dismiss\<close>, and reconciliation, which calls it, only add
  slugs.
\<close>
theorem dismissed_monotone:
  "set (dismissed w) \<subseteq> set (dismissed (dismiss p a w))
   \<and> set (dismissed w) \<subseteq> set (dismissed (componentDidUpdate p prevProps w))
   \<and> dismissed (enqueue p r f w) = dismissed w
   \<and> dismissed (dequeue p w) = dismissed w
   \<and> dismissed (continueQueue p w) = dismissed w
   \<and> dismissed (updateItem p r w) = dismissed w
   \<and> dismissed (updateAll p w) = dismissed w
   \<and> dismissed (exitHandler p answer w) = dismissed w"
proof -
  have 1: "set (dismissed w) \<subseteq> set (dismissed (dismiss p a w))"
    by (rule dismiss_mono)
  have 2: "set (dismissed w) \<subseteq> set (dismissed (componentDidUpdate p prevProps w))"
    by (rule componentDidUpdate_mono)
  have 3: "dismissed (updateAll p w) = dismissed w"
    by (simp add: updateAll_def trackUpdateAll_def Let_def)
  have 4: "dismissed (exitHandler p answer w) = dismissed w"
    by (simp add: exitHandler_def Let_def)
  show ?thesis using 1 2 3 4 by simp
qed

theorem dismissed_monotone_witness:
  "set (dismissed ((initial ex_heap)\<lparr>dismissed := [''dara'']\<rparr>))
     \<subseteq> set (dismissed (componentDidUpdate ex_props ex_prevProps
                ((initial ex_heap)\<lparr>dismissed := [''dara''], queued := [2]\<rparr>)))
   \<and> ''akismet'' \<in> set (dismissed (componentDidUpdate ex_props ex_prevProps
                ((initial ex_heap)\<lparr>dismissed := [''dara''], queued := [2]\<rparr>)))"
  using dismissed_monotone [of "(initial ex_heap)\<lparr>dismissed := [''dara''], queued := [2]\<rparr>"
      ex_props "ItemArg 2" ex_prevProps 2 "[]" False]
  by (simp add: ex_defs run_defs)

end

